theory Spec2Isabelle
  imports Complex_Main
begin

section \<open>JavaScript numbers\<close>

text \<open>
  The strategies compute on JavaScript numbers. A number is modelled as a real, or one
  of the three special values that division produces: \<open>Infinity\<close>, \<open>-Infinity\<close> and
  \<open>NaN\<close>. Finite values are exact reals: rounding to 64 bits and the sign of zero are
  not modelled (a zero divisor counts as \<open>+0\<close>, which is what a sum started at \<open>0\<close>
  or \<open>Math.abs\<close> gives).
\<close>

datatype jsnum = Num real | PosInf | NegInf | NaN

fun jadd :: "jsnum \<Rightarrow> jsnum \<Rightarrow> jsnum" where
  "jadd NaN _ = NaN"
| "jadd _ NaN = NaN"
| "jadd (Num a) (Num b) = Num (a + b)"
| "jadd PosInf NegInf = NaN"
| "jadd NegInf PosInf = NaN"
| "jadd PosInf _ = PosInf"
| "jadd _ PosInf = PosInf"
| "jadd NegInf _ = NegInf"
| "jadd _ NegInf = NegInf"

fun jneg :: "jsnum \<Rightarrow> jsnum" where
  "jneg (Num a) = Num (- a)"
| "jneg PosInf = NegInf"
| "jneg NegInf = PosInf"
| "jneg NaN = NaN"

definition jsub :: "jsnum \<Rightarrow> jsnum \<Rightarrow> jsnum" where
  "jsub a b = jadd a (jneg b)"

fun jmul :: "jsnum \<Rightarrow> jsnum \<Rightarrow> jsnum" where
  "jmul NaN _ = NaN"
| "jmul _ NaN = NaN"
| "jmul (Num a) (Num b) = Num (a * b)"
| "jmul (Num a) PosInf = (if a = 0 then NaN else if 0 < a then PosInf else NegInf)"
| "jmul (Num a) NegInf = (if a = 0 then NaN else if 0 < a then NegInf else PosInf)"
| "jmul PosInf (Num b) = (if b = 0 then NaN else if 0 < b then PosInf else NegInf)"
| "jmul NegInf (Num b) = (if b = 0 then NaN else if 0 < b then NegInf else PosInf)"
| "jmul PosInf PosInf = PosInf"
| "jmul NegInf NegInf = PosInf"
| "jmul PosInf NegInf = NegInf"
| "jmul NegInf PosInf = NegInf"

fun jdiv :: "jsnum \<Rightarrow> jsnum \<Rightarrow> jsnum" where
  "jdiv NaN _ = NaN"
| "jdiv _ NaN = NaN"
| "jdiv (Num a) (Num b) =
     (if b = 0 then (if a = 0 then NaN else if 0 < a then PosInf else NegInf)
      else Num (a / b))"
| "jdiv (Num a) PosInf = Num 0"
| "jdiv (Num a) NegInf = Num 0"
| "jdiv PosInf (Num b) = (if 0 \<le> b then PosInf else NegInf)"
| "jdiv NegInf (Num b) = (if 0 \<le> b then NegInf else PosInf)"
| "jdiv PosInf PosInf = NaN"
| "jdiv PosInf NegInf = NaN"
| "jdiv NegInf PosInf = NaN"
| "jdiv NegInf NegInf = NaN"

text \<open>\<open>Math.abs\<close>, \<open>Math.sqrt\<close> and \<open>Math.pow(x, 2)\<close>.\<close>

fun jabs :: "jsnum \<Rightarrow> jsnum" where
  "jabs (Num a) = Num \<bar>a\<bar>"
| "jabs PosInf = PosInf"
| "jabs NegInf = PosInf"
| "jabs NaN = NaN"

fun jsqrt :: "jsnum \<Rightarrow> jsnum" where
  "jsqrt (Num a) = (if a < 0 then NaN else Num (sqrt a))"
| "jsqrt PosInf = PosInf"
| "jsqrt NegInf = NaN"
| "jsqrt NaN = NaN"

definition jpow2 :: "jsnum \<Rightarrow> jsnum" where
  "jpow2 x = jmul x x"

text \<open>The comparisons. Every comparison with \<open>NaN\<close> is false.\<close>

fun jlt :: "jsnum \<Rightarrow> jsnum \<Rightarrow> bool" where
  "jlt NaN _ = False"
| "jlt _ NaN = False"
| "jlt (Num a) (Num b) = (a < b)"
| "jlt NegInf NegInf = False"
| "jlt NegInf _ = True"
| "jlt _ NegInf = False"
| "jlt PosInf _ = False"
| "jlt _ PosInf = True"

fun jle :: "jsnum \<Rightarrow> jsnum \<Rightarrow> bool" where
  "jle NaN _ = False"
| "jle _ NaN = False"
| "jle (Num a) (Num b) = (a \<le> b)"
| "jle NegInf _ = True"
| "jle _ PosInf = True"
| "jle _ _ = False"

definition jgt :: "jsnum \<Rightarrow> jsnum \<Rightarrow> bool" where
  "jgt a b = jlt b a"

definition jge :: "jsnum \<Rightarrow> jsnum \<Rightarrow> bool" where
  "jge a b = jle b a"

text \<open>A number is falsy when it is \<open>0\<close> or \<open>NaN\<close>; \<open>x || d\<close> is \<open>d\<close> for a falsy \<open>x\<close>.\<close>

fun falsy :: "jsnum \<Rightarrow> bool" where
  "falsy (Num a) = (a = 0)"
| "falsy NaN = True"
| "falsy _ = False"

definition num_or :: "jsnum \<Rightarrow> jsnum \<Rightarrow> jsnum" where
  "num_or x d = (if falsy x then d else x)"

text \<open>
  A read that may give \<open>undefined\<close> (an index out of range, a call argument that was
  not supplied) is a \<open>jsnum option\<close>, \<open>None\<close> being \<open>undefined\<close>. In arithmetic
  and in comparisons \<open>undefined\<close> converts to \<open>NaN\<close>.
\<close>

definition to_num :: "jsnum option \<Rightarrow> jsnum" where
  "to_num v = (case v of None \<Rightarrow> NaN | Some x \<Rightarrow> x)"

definition of_period :: "int \<Rightarrow> jsnum" where
  "of_period p = Num (real_of_int p)"

section \<open>Arrays\<close>

text \<open>\<open>xs[i]\<close>: \<open>undefined\<close> outside the array.\<close>

definition elem_at :: "'a list \<Rightarrow> int \<Rightarrow> 'a option" where
  "elem_at xs i = (if 0 \<le> i \<and> i < int (length xs) then Some (xs ! nat i) else None)"

text \<open>
  \<open>xs.slice(start, end)\<close>: a negative index counts from the end, and both indices
  are clamped to the array. \<open>xs.slice(start)\<close> runs to the end of the array.
\<close>

definition rel_index :: "nat \<Rightarrow> int \<Rightarrow> nat" where
  "rel_index n i = (if i < 0 then nat (max (int n + i) 0) else min (nat i) n)"

definition slice :: "'a list \<Rightarrow> int \<Rightarrow> int \<Rightarrow> 'a list" where
  "slice xs start fin =
     (let k = rel_index (length xs) start; final = rel_index (length xs) fin
      in take (final - k) (drop k xs))"

definition slice_from :: "'a list \<Rightarrow> int \<Rightarrow> 'a list" where
  "slice_from xs start = drop (rel_index (length xs) start) xs"

text \<open>\<open>xs.reduce((a, b) => a + b, 0)\<close>\<close>

definition reduce_add :: "jsnum list \<Rightarrow> jsnum" where
  "reduce_add xs = foldl jadd (Num 0) xs"

section \<open>Indicators\<close>

subsection \<open>calculateSma\<close>

text \<open>
  The loop of \<open>calculateSma\<close>, with the loop variable \<open>i\<close> and the array \<open>sma\<close>
  built so far. The period is an integer: every caller reads it with \<open>parseInt\<close>.
\<close>

function sma_loop :: "jsnum list \<Rightarrow> int \<Rightarrow> int \<Rightarrow> jsnum list \<Rightarrow> jsnum list" where
  "sma_loop data period i sma =
     (if i \<le> int (length data) - period
      then sma_loop data period (i + 1)
             (sma @ [jdiv (reduce_add (slice data i (i + period))) (of_period period)])
      else sma)"
  by pat_completeness auto
termination
  by (relation "measure (\<lambda>(data, period, i, sma). nat (int (length data) - period - i + 1))")
     auto

declare sma_loop.simps [simp del]

definition calculateSma :: "jsnum list \<Rightarrow> int \<Rightarrow> jsnum list" where
  "calculateSma data period = sma_loop data period 0 []"

subsection \<open>calculateEma\<close>

text \<open>
  \<open>xs[i] = v\<close>: an assignment past the end extends the array, and the elements it
  skips read as \<open>undefined\<close>.
\<close>

definition assign :: "'a option list \<Rightarrow> nat \<Rightarrow> 'a option \<Rightarrow> 'a option list" where
  "assign xs i v =
     (if i < length xs then xs[i := v] else xs @ replicate (i - length xs) None @ [v])"

text \<open>Reading an array that may hold \<open>undefined\<close>.\<close>

definition elem_opt :: "'a option list \<Rightarrow> int \<Rightarrow> 'a option" where
  "elem_opt xs i = (case elem_at xs i of None \<Rightarrow> None | Some v \<Rightarrow> v)"

function ema_loop ::
  "jsnum list \<Rightarrow> jsnum \<Rightarrow> nat \<Rightarrow> jsnum option list \<Rightarrow> jsnum option list" where
  "ema_loop data k i ema =
     (if i < length data
      then ema_loop data k (i + 1)
             (assign ema i
                (Some (jadd (jmul (data ! i) k)
                            (jmul (to_num (elem_opt ema (int i - 1))) (jsub (Num 1) k)))))
      else ema)"
  by pat_completeness auto
termination
  by (relation "measure (\<lambda>(data, k, i, ema). length data - i)") auto

declare ema_loop.simps [simp del]

text \<open>\<open>ema[0] = data[0]\<close> stores \<open>undefined\<close> when \<open>data\<close> is empty.\<close>

definition calculateEma :: "jsnum list \<Rightarrow> int \<Rightarrow> jsnum option list" where
  "calculateEma data period =
     (let k = jdiv (Num 2) (jadd (of_period period) (Num 1))
      in ema_loop data k 1 (assign [] 0 (elem_at data 0)))"

subsection \<open>calculateRsi\<close>

function changes_loop :: "jsnum list \<Rightarrow> nat \<Rightarrow> jsnum list \<Rightarrow> jsnum list" where
  "changes_loop prices i changes =
     (if i < length prices
      then changes_loop prices (i + 1) (changes @ [jsub (prices ! i) (prices ! (i - 1))])
      else changes)"
  by pat_completeness auto
termination
  by (relation "measure (\<lambda>(prices, i, changes). length prices - i)") auto

declare changes_loop.simps [simp del]

text \<open>
  The body of the second loop: the value pushed for the window that ends before \<open>i\<close>.
  The quick reference and the RSI strategy have the same \<open>calculateRsi\<close>; its callers
  pass the period, so the default value 14 of the parameter plays no part.
\<close>

definition rsi_window :: "jsnum list \<Rightarrow> int \<Rightarrow> int \<Rightarrow> jsnum" where
  "rsi_window changes period i =
     (let recentChanges = slice changes (i - period) i;
          gains = jdiv (reduce_add (filter (\<lambda>c. jgt c (Num 0)) recentChanges))
                       (of_period period);
          losses = jdiv (jabs (reduce_add (filter (\<lambda>c. jlt c (Num 0)) recentChanges)))
                        (of_period period);
          rs = jdiv gains (num_or losses (Num 1))
      in jsub (Num 100) (jdiv (Num 100) (jadd (Num 1) rs)))"

function rsi_loop :: "jsnum list \<Rightarrow> int \<Rightarrow> int \<Rightarrow> jsnum list \<Rightarrow> jsnum list" where
  "rsi_loop changes period i rsi =
     (if i \<le> int (length changes)
      then rsi_loop changes period (i + 1) (rsi @ [rsi_window changes period i])
      else rsi)"
  by pat_completeness auto
termination
  by (relation "measure (\<lambda>(changes, period, i, rsi). nat (int (length changes) - i + 1))")
     auto

declare rsi_loop.simps [simp del]

definition calculateRsi :: "jsnum list \<Rightarrow> int \<Rightarrow> jsnum list" where
  "calculateRsi prices period =
     (let changes = changes_loop prices 1 [] in rsi_loop changes period period [])"

subsection \<open>detectCrossover\<close>

text \<open>The result is \<open>'bullish'\<close>, \<open>'bearish'\<close> or \<open>null\<close> (\<open>None\<close>).\<close>

definition detectCrossover :: "jsnum list \<Rightarrow> jsnum list \<Rightarrow> string option" where
  "detectCrossover fastSma slowSma =
     (if length fastSma < 2 \<or> length slowSma < 2 then None
      else
        let currentFast = fastSma ! (length fastSma - 1);
            previousFast = fastSma ! (length fastSma - 2);
            currentSlow = slowSma ! (length slowSma - 1);
            previousSlow = slowSma ! (length slowSma - 2)
        in if jle previousFast previousSlow \<and> jgt currentFast currentSlow
           then Some ''bullish''
           else if jge previousFast previousSlow \<and> jlt currentFast currentSlow
           then Some ''bearish''
           else None)"

text \<open>
  The quick reference has the same function with the results \<open>'above'\<close> and
  \<open>'below'\<close>.
\<close>

definition detectCrossover_lines :: "jsnum list \<Rightarrow> jsnum list \<Rightarrow> string option" where
  "detectCrossover_lines line1 line2 =
     (if length line1 < 2 \<or> length line2 < 2 then None
      else
        let current1 = line1 ! (length line1 - 1);
            previous1 = line1 ! (length line1 - 2);
            current2 = line2 ! (length line2 - 1);
            previous2 = line2 ! (length line2 - 2)
        in if jle previous1 previous2 \<and> jgt current1 current2 then Some ''above''
           else if jge previous1 previous2 \<and> jlt current1 current2 then Some ''below''
           else None)"

subsection \<open>The indicators of the Bollinger Bands and Volume Spike strategies\<close>

text \<open>
  The Bollinger Bands strategy has a \<open>calculateSma\<close> of its own, which gives the mean
  of the last \<open>period\<close> values only.
\<close>

definition calculateSma_last :: "jsnum list \<Rightarrow> int \<Rightarrow> jsnum" where
  "calculateSma_last data period =
     (let sl = slice_from data (- period)
      in jdiv (reduce_add sl) (Num (real (length sl))))"

definition calculateStdDev :: "jsnum list \<Rightarrow> int \<Rightarrow> jsnum" where
  "calculateStdDev data period =
     (let sl = slice_from data (- period);
          mean = calculateSma_last data period;
          squaredDiffs = map (\<lambda>v. jpow2 (jsub v mean)) sl;
          variance = jdiv (reduce_add squaredDiffs) (Num (real (length sl)))
      in jsqrt variance)"

definition calculateAverage :: "jsnum list \<Rightarrow> jsnum" where
  "calculateAverage data = jdiv (reduce_add data) (Num (real (length data)))"

section \<open>The host boundary\<close>

record candle =
  timestamp :: int
  open_price :: real
  high :: real
  low :: real
  close :: real
  volume :: real

text \<open>
  The input of one invocation: the call arguments, which are strings, and the candles
  of each ticker.
\<close>

record FunctionArgs =
  callArguments :: "string \<rightharpoonup> string"
  candles :: "string \<rightharpoonup> candle list"

text \<open>
  Modelled from the spec: \<open>getCallArgument\<close> and \<open>getCandles\<close> belong to the
  \<open>exchange-outpost-abi\<close> package, which is not part of the sources. A call argument is
  a string-typed value that the given parser coerces, and to which the default applies
  when it is absent: an absent argument reads as \<open>undefined\<close> (\<open>None\<close>). A ticker
  without candles makes \<open>getCandles\<close> throw (the examples wrap it in try-catch); here
  that is \<open>None\<close>.
\<close>

definition getCallArgument :: "FunctionArgs \<Rightarrow> string \<Rightarrow> (string \<Rightarrow> 'a) \<Rightarrow> 'a option" where
  "getCallArgument args name parser = map_option parser (callArguments args name)"

definition getCandles :: "FunctionArgs \<Rightarrow> string \<Rightarrow> candle list option" where
  "getCandles args ticker = candles args ticker"

text \<open>
  \<open>x || d\<close> on what \<open>getCallArgument\<close> returns. \<open>parseInt\<close> gives \<open>NaN\<close>
  (\<open>None\<close>) or an integer, \<open>parseFloat\<close> a number; the identity parser a string, which
  is falsy when empty. Both parsers are parameters of the strategies.
\<close>

definition str_or :: "string option \<Rightarrow> string \<Rightarrow> string" where
  "str_or v d = (case v of None \<Rightarrow> d | Some s \<Rightarrow> if s = [] then d else s)"

definition int_or :: "int option option \<Rightarrow> int \<Rightarrow> int" where
  "int_or v d =
     (case v of None \<Rightarrow> d | Some None \<Rightarrow> d | Some (Some n) \<Rightarrow> if n = 0 then d else n)"

definition float_or :: "jsnum option \<Rightarrow> jsnum \<Rightarrow> jsnum" where
  "float_or v d = (case v of None \<Rightarrow> d | Some x \<Rightarrow> num_or x d)"

text \<open>
  A template literal is kept as its fragments: literal text, \<open>${v}\<close> for a number or
  \<open>undefined\<close>, and \<open>${v.toFixed(2)}\<close>. How the runtime prints a number is not modelled.
\<close>

datatype frag = Txt string | Shown "jsnum option" | Fixed jsnum

datatype jsval =
  JUndefined | JNull | JBool bool | JNumber jsnum | JString string | JTemplate "frag list"

definition num_val :: "jsnum option \<Rightarrow> jsval" where
  "num_val v = (case v of None \<Rightarrow> JUndefined | Some x \<Rightarrow> JNumber x)"

text \<open>
  What one invocation does: the emails it schedules (recipient and message) and the
  object it passes to \<open>output\<close>, as the list of its fields.
\<close>

record effects =
  scheduled :: "(string \<times> frag list) list"
  output_obj :: "(string \<times> jsval) list"

section \<open>The strategies\<close>

subsection \<open>Simple Moving Average Alert\<close>

definition run_sma_alert :: "(string \<Rightarrow> int option) \<Rightarrow> FunctionArgs \<Rightarrow> effects option" where
  "run_sma_alert parseInt args =
     (let ticker = str_or (getCallArgument args ''ticker'' id) ''BTCUSDT''
      in case getCandles args ticker of
           None \<Rightarrow> None
         | Some cs \<Rightarrow>
            let closePrices = map (\<lambda>c. Num (close c)) cs;
                fastPeriod = int_or (getCallArgument args ''fastPeriod'' parseInt) 10;
                slowPeriod = int_or (getCallArgument args ''slowPeriod'' parseInt) 20;
                email = str_or (getCallArgument args ''email'' id) ''trader@example.com'';
                fastSma = calculateSma closePrices fastPeriod;
                slowSma = calculateSma closePrices slowPeriod;
                crossover = detectCrossover fastSma slowSma;
                (sent, emailSent) =
                  (if crossover = Some ''bullish'' then
                     ([(email,
                        [Txt ''Bullish crossover detected for '', Txt ticker,
                         Txt '': Fast MA ('', Shown (Some (of_period fastPeriod)),
                         Txt '') crossed above Slow MA ('', Shown (Some (of_period slowPeriod)),
                         Txt '')''])], True)
                   else if crossover = Some ''bearish'' then
                     ([(email,
                        [Txt ''Bearish crossover detected for '', Txt ticker,
                         Txt '': Fast MA ('', Shown (Some (of_period fastPeriod)),
                         Txt '') crossed below Slow MA ('', Shown (Some (of_period slowPeriod)),
                         Txt '')''])], True)
                   else ([], False))
            in Some \<lparr>scheduled = sent,
                      output_obj =
                        [(''status'', JString ''ok''),
                         (''ticker'', JString ticker),
                         (''crossover'', JString (str_or crossover ''none'')),
                         (''emailSent'', JBool emailSent),
                         (''currentFastSma'', num_val (elem_at fastSma (int (length fastSma) - 1))),
                         (''currentSlowSma'', num_val (elem_at slowSma (int (length slowSma) - 1)))]\<rparr>)"

subsection \<open>Price Threshold Alert\<close>

definition run_price_threshold :: "(string \<Rightarrow> jsnum) \<Rightarrow> FunctionArgs \<Rightarrow> effects option" where
  "run_price_threshold parseFloat args =
     (let ticker = str_or (getCallArgument args ''ticker'' id) ''BTCUSDT''
      in case getCandles args ticker of
           None \<Rightarrow> None
         | Some cs \<Rightarrow>
            if length cs < 2 then
              Some \<lparr>scheduled = [],
                    output_obj = [(''status'', JString ''error''),
                              (''message'', JString ''Not enough candles for analysis'')]\<rparr>
            else
              let threshold = getCallArgument args ''threshold'' parseFloat;
                  direction = str_or (getCallArgument args ''direction'' id) ''above'';
                  email = str_or (getCallArgument args ''email'' id) ''trader@example.com'';
                  currentPrice = Num (close (cs ! (length cs - 1)));
                  previousPrice = Num (close (cs ! (length cs - 2)));
                  (sent, triggered, emailSent) =
                    (if direction = ''above'' \<and> jle previousPrice (to_num threshold)
                          \<and> jgt currentPrice (to_num threshold) then
                       ([(email,
                          [Txt ticker, Txt '' crossed ABOVE '', Shown threshold,
                           Txt ''. Current price: '', Shown (Some currentPrice)])], True, True)
                     else if direction = ''below'' \<and> jge previousPrice (to_num threshold)
                          \<and> jlt currentPrice (to_num threshold) then
                       ([(email,
                          [Txt ticker, Txt '' crossed BELOW '', Shown threshold,
                           Txt ''. Current price: '', Shown (Some currentPrice)])], True, True)
                     else ([], False, False))
              in Some \<lparr>scheduled = sent,
                        output_obj =
                          [(''status'', JString ''ok''),
                           (''ticker'', JString ticker),
                           (''currentPrice'', JNumber currentPrice),
                           (''threshold'', num_val threshold),
                           (''direction'', JString direction),
                           (''triggered'', JBool triggered),
                           (''emailSent'', JBool emailSent)]\<rparr>)"

subsection \<open>Volume Spike Detector\<close>

definition run_volume_spike ::
  "(string \<Rightarrow> int option) \<Rightarrow> (string \<Rightarrow> jsnum) \<Rightarrow> FunctionArgs \<Rightarrow> effects option" where
  "run_volume_spike parseInt parseFloat args =
     (let ticker = str_or (getCallArgument args ''ticker'' id) ''BTCUSDT''
      in case getCandles args ticker of
           None \<Rightarrow> None
         | Some cs \<Rightarrow>
            let volumePeriod = int_or (getCallArgument args ''volumePeriod'' parseInt) 20;
                spikeMultiplier =
                  float_or (getCallArgument args ''spikeMultiplier'' parseFloat) (Num 2);
                email = str_or (getCallArgument args ''email'' id) ''trader@example.com''
            in if int (length cs) < volumePeriod + 1 then
                 Some \<lparr>scheduled = [],
                       output_obj = [(''status'', JString ''error''),
                                 (''message'',
                                  JTemplate [Txt ''Not enough candles. Need at least '',
                                             Shown (Some (of_period (volumePeriod + 1)))])]\<rparr>
               else
                 let volumes = map (\<lambda>c. Num (volume c)) cs;
                     currentVolume = elem_at volumes (int (length volumes) - 1);
                     historicalVolumes = slice volumes (- volumePeriod - 1) (- 1);
                     avgVolume = calculateAverage historicalVolumes;
                     volumeRatio = jdiv (to_num currentVolume) avgVolume;
                     (sent, spikeDetected, emailSent) =
                       (if jge volumeRatio spikeMultiplier then
                          ([(email,
                             [Txt ''Volume spike detected for '', Txt ticker,
                              Txt '': Current volume '', Fixed (to_num currentVolume),
                              Txt '' is '', Fixed volumeRatio, Txt ''x the '',
                              Shown (Some (of_period volumePeriod)),
                              Txt ''-period average ('', Fixed avgVolume, Txt '')''])],
                           True, True)
                        else ([], False, False))
                 in Some \<lparr>scheduled = sent,
                           output_obj =
                             [(''status'', JString ''ok''),
                              (''ticker'', JString ticker),
                              (''currentVolume'', num_val currentVolume),
                              (''avgVolume'', JNumber avgVolume),
                              (''volumeRatio'', JNumber volumeRatio),
                              (''spikeDetected'', JBool spikeDetected),
                              (''emailSent'', JBool emailSent)]\<rparr>)"

subsection \<open>Bollinger Bands Breakout\<close>

text \<open>
  The test of the current price against the two bands: \<open>'upper'\<close>, \<open>'lower'\<close> or
  \<open>null\<close> (\<open>None\<close>), the upper band being tested first.
\<close>

definition breakout_of :: "jsnum \<Rightarrow> jsnum \<Rightarrow> jsnum \<Rightarrow> string option" where
  "breakout_of currentPrice upperBand lowerBand =
     (if jgt currentPrice upperBand then Some ''upper''
      else if jlt currentPrice lowerBand then Some ''lower''
      else None)"

definition run_bollinger ::
  "(string \<Rightarrow> int option) \<Rightarrow> (string \<Rightarrow> jsnum) \<Rightarrow> FunctionArgs \<Rightarrow> effects option" where
  "run_bollinger parseInt parseFloat args =
     (let ticker = str_or (getCallArgument args ''ticker'' id) ''BTCUSDT''
      in case getCandles args ticker of
           None \<Rightarrow> None
         | Some cs \<Rightarrow>
            let closePrices = map (\<lambda>c. Num (close c)) cs;
                period = int_or (getCallArgument args ''period'' parseInt) 20;
                stdDevMultiplier =
                  float_or (getCallArgument args ''stdDevMultiplier'' parseFloat) (Num 2);
                email = str_or (getCallArgument args ''email'' id) ''trader@example.com''
            in if int (length closePrices) < period then
                 Some \<lparr>scheduled = [],
                       output_obj = [(''status'', JString ''error''),
                                 (''message'',
                                  JTemplate [Txt ''Not enough data. Need at least '',
                                             Shown (Some (of_period period)),
                                             Txt '' candles''])]\<rparr>
               else
                 let sma = calculateSma_last closePrices period;
                     stdDev = calculateStdDev closePrices period;
                     upperBand = jadd sma (jmul stdDev stdDevMultiplier);
                     lowerBand = jsub sma (jmul stdDev stdDevMultiplier);
                     currentPrice = elem_at closePrices (int (length closePrices) - 1);
                     breakout = breakout_of (to_num currentPrice) upperBand lowerBand;
                     (sent, emailSent) =
                       (if breakout = Some ''upper'' then
                          ([(email,
                             [Txt ticker, Txt '' broke above upper Bollinger Band: Price '',
                              Shown currentPrice, Txt '' > Upper Band '', Fixed upperBand])],
                           True)
                        else if breakout = Some ''lower'' then
                          ([(email,
                             [Txt ticker, Txt '' broke below lower Bollinger Band: Price '',
                              Shown currentPrice, Txt '' < Lower Band '', Fixed lowerBand])],
                           True)
                        else ([], False))
                 in Some \<lparr>scheduled = sent,
                           output_obj =
                             [(''status'', JString ''ok''),
                              (''ticker'', JString ticker),
                              (''currentPrice'', num_val currentPrice),
                              (''sma'', JNumber sma),
                              (''upperBand'', JNumber upperBand),
                              (''lowerBand'', JNumber lowerBand),
                              (''breakout'', (case breakout of None \<Rightarrow> JNull | Some b \<Rightarrow> JString b)),
                              (''emailSent'', JBool emailSent)]\<rparr>)"

text \<open>The field of an output object.\<close>

definition output_field :: "effects \<Rightarrow> string \<Rightarrow> jsval option" where
  "output_field r name = map_of (output_obj r) name"

section \<open>Example inputs\<close>

text \<open>
  Concrete inputs on which the strategies are evaluated below: a candle with one price
  and a volume, the arguments of an invocation for the ticker \<open>BTCUSDT\<close>, and two
  parsers that agree with \<open>parseInt\<close> and \<open>parseFloat\<close> on the few strings used
  (every other string is taken to give \<open>NaN\<close>).
\<close>

definition flat_candle :: "real \<Rightarrow> real \<Rightarrow> candle" where
  "flat_candle price vol =
     \<lparr>timestamp = 0, open_price = price, high = price, low = price, close = price, volume = vol\<rparr>"

definition example_args :: "(string \<times> string) list \<Rightarrow> candle list \<Rightarrow> FunctionArgs" where
  "example_args given cs = \<lparr>callArguments = map_of given, candles = [''BTCUSDT'' \<mapsto> cs]\<rparr>"

definition example_parseInt :: "string \<Rightarrow> int option" where
  "example_parseInt s =
     (if s = ''0'' then Some 0 else if s = ''2'' then Some 2 else if s = ''20'' then Some 20
      else None)"

definition example_parseFloat :: "string \<Rightarrow> jsnum" where
  "example_parseFloat s =
     (if s = ''0'' then Num 0 else if s = ''2.0'' then Num 2 else if s = ''50000'' then Num 50000
      else if s = ''1'' then Num 1 else if s = ''-2'' then Num (- 2)
      else NaN)"

section \<open>Properties\<close>

lemma reduce_add_Num: "foldl jadd (Num a) (map Num xs) = Num (a + sum_list xs)"
  by (induction xs arbitrary: a) (simp_all add: add.assoc)

lemma reduce_add_map_Num: "reduce_add (map Num xs) = Num (sum_list xs)"
  by (simp add: reduce_add_def reduce_add_Num)

lemma sma_loop_eq:
  "sma_loop data period i sma =
     sma @ map (\<lambda>j. jdiv (reduce_add (slice data j (j + period))) (of_period period))
             [i..int (length data) - period]"
proof (induction data period i sma rule: sma_loop.induct)
  case (1 data period i sma)
  show ?case
  proof (cases "i \<le> int (length data) - period")
    case True
    then show ?thesis
      using "1.IH" by (subst sma_loop.simps) (simp add: upto_rec1 [of i])
  next
    case False
    then show ?thesis
      by (subst sma_loop.simps) simp
  qed
qed

lemma calculateSma_eq:
  "calculateSma data period =
     map (\<lambda>j. jdiv (reduce_add (slice data j (j + period))) (of_period period))
       [0..int (length data) - period]"
  by (simp add: calculateSma_def sma_loop_eq)

lemma length_calculateSma:
  "length (calculateSma data period) = nat (int (length data) - period + 1)"
  by (simp add: calculateSma_eq)

lemma slice_window:
  "0 \<le> i \<Longrightarrow> 0 \<le> p \<Longrightarrow> i + p \<le> int (length xs) \<Longrightarrow>
   slice xs i (i + p) = take (nat p) (drop (nat i) xs)"
proof -
  assume a: "0 \<le> i" "0 \<le> p" "i + p \<le> int (length xs)"
  then have "nat i \<le> length xs" "nat (i + p) \<le> length xs" "nat (i + p) - nat i = nat p"
    by linarith+
  with a show ?thesis
    by (simp add: slice_def rel_index_def Let_def min_def)
qed

subsection \<open>calculateSma: length and windows\<close>

lemma nth_calculateSma:
  assumes "1 \<le> p" "i < length (calculateSma data p)"
  shows "calculateSma data p ! i = jdiv (reduce_add (take (nat p) (drop i data))) (of_period p)"
proof -
  from assms(2) have i: "int i \<le> int (length data) - p"
    by (simp add: length_calculateSma)
  then have "calculateSma data p ! i =
      jdiv (reduce_add (slice data (int i) (int i + p))) (of_period p)"
    using nth_upto [of 0 i "int (length data) - p"] by (simp add: calculateSma_eq)
  moreover have "slice data (int i) (int i + p) = take (nat p) (drop i data)"
    using slice_window [of "int i" p data] assms(1) i by simp
  ultimately show ?thesis by simp
qed

lemma window_full:
  assumes "1 \<le> p" "i < length (calculateSma data p)"
  shows "length (take (nat p) (drop i data)) = nat p"
  using assms by (simp add: length_calculateSma)

text \<open>
  C5. For a data sequence of length \<open>n\<close> and a period \<open>p \<ge> 1\<close>, \<open>calculateSma\<close>
  returns \<open>max(0, n - p + 1)\<close> values, and value \<open>i\<close> is the sum of the \<open>p\<close> elements
  \<open>data[i .. i+p)\<close> divided by \<open>p\<close>; on finite data that is the real number
  \<open>(data[i] + ... + data[i+p-1]) / p\<close>.
\<close>

theorem calculateSma_length_and_mean:
  "1 \<le> p \<Longrightarrow>
   int (length (calculateSma data p)) = max 0 (int (length data) - p + 1) \<and>
   (\<forall>i < length (calculateSma data p).
      length (take (nat p) (drop i data)) = nat p \<and>
      calculateSma data p ! i =
        jdiv (reduce_add (take (nat p) (drop i data))) (of_period p)) \<and>
   (\<forall>xs. data = map Num xs \<longrightarrow>
      (\<forall>i < length (calculateSma data p).
         calculateSma data p ! i = Num (sum_list (take (nat p) (drop i xs)) / real_of_int p)))"
proof (intro conjI allI impI)
  assume p: "1 \<le> p"
  show "int (length (calculateSma data p)) = max 0 (int (length data) - p + 1)"
    by (simp add: length_calculateSma)
  fix i assume i: "i < length (calculateSma data p)"
  show "length (take (nat p) (drop i data)) = nat p"
    using p i by (rule window_full)
  show "calculateSma data p ! i = jdiv (reduce_add (take (nat p) (drop i data))) (of_period p)"
    using p i by (rule nth_calculateSma)
next
  fix xs i
  assume p: "1 \<le> p" and d: "data = map Num xs" and i: "i < length (calculateSma data p)"
  have "calculateSma data p ! i =
      jdiv (reduce_add (map Num (take (nat p) (drop i xs)))) (of_period p)"
    using nth_calculateSma [OF p i] by (simp add: d take_map drop_map)
  also have "\<dots> = Num (sum_list (take (nat p) (drop i xs)) / real_of_int p)"
    using p by (simp add: reduce_add_map_Num of_period_def)
  finally show "calculateSma data p ! i =
      Num (sum_list (take (nat p) (drop i xs)) / real_of_int p)" .
qed

theorem calculateSma_length_and_mean_witness:
  "(1::int) \<le> 2 \<and> int (length (calculateSma [Num 1, Num 2, Num 3, Num 4] 2)) = 3 \<and>
   calculateSma [Num 1, Num 2, Num 3, Num 4] 2 ! 2 = Num (7 / 2)"
proof -
  have p: "(1::int) \<le> 2" by simp
  note t = calculateSma_length_and_mean [OF p, of "[Num 1, Num 2, Num 3, Num 4]"]
  from t have len: "int (length (calculateSma [Num 1, Num 2, Num 3, Num 4] 2)) = 3"
    by simp
  then have "2 < length (calculateSma [Num 1, Num 2, Num 3, Num 4] 2)"
    by simp
  with t have "calculateSma [Num 1, Num 2, Num 3, Num 4] 2 ! 2 =
      jdiv (reduce_add (take (nat 2) (drop 2 [Num 1, Num 2, Num 3, Num 4]))) (of_period 2)"
    by blast
  then show ?thesis using len by (simp add: reduce_add_def of_period_def)
qed

subsection \<open>detectCrossover\<close>

lemma jlt_asym: "jlt a b \<Longrightarrow> \<not> jlt b a"
  by (cases a; cases b) auto

lemma jlt_trans: "jlt a b \<Longrightarrow> jlt b c \<Longrightarrow> jlt a c"
  by (cases a; cases b; cases c) auto

lemma jlt_irrefl: "\<not> jlt a a"
  by (cases a) auto

text \<open>
  C6. \<open>detectCrossover\<close> returns \<open>null\<close> when either series has fewer than two
  values. Otherwise, with \<open>pf\<close>, \<open>cf\<close> the previous and current fast values and
  \<open>ps\<close>, \<open>cs\<close> the slow ones, it returns \<open>'bullish'\<close> iff \<open>pf <= ps && cf > cs\<close>,
  \<open>'bearish'\<close> iff \<open>pf >= ps && cf < cs\<close>, and \<open>null\<close> otherwise; the two conditions
  never hold together.
\<close>

theorem detectCrossover_cases:
  "(length fastSma < 2 \<or> length slowSma < 2 \<longrightarrow> detectCrossover fastSma slowSma = None) \<and>
   (2 \<le> length fastSma \<and> 2 \<le> length slowSma \<longrightarrow>
      (let cf = fastSma ! (length fastSma - 1); pf = fastSma ! (length fastSma - 2);
           cs = slowSma ! (length slowSma - 1); ps = slowSma ! (length slowSma - 2)
       in (detectCrossover fastSma slowSma = Some ''bullish'' \<longleftrightarrow> jle pf ps \<and> jgt cf cs) \<and>
          (detectCrossover fastSma slowSma = Some ''bearish'' \<longleftrightarrow> jge pf ps \<and> jlt cf cs) \<and>
          (detectCrossover fastSma slowSma = None \<longleftrightarrow>
             \<not> (jle pf ps \<and> jgt cf cs) \<and> \<not> (jge pf ps \<and> jlt cf cs)) \<and>
          \<not> ((jle pf ps \<and> jgt cf cs) \<and> (jge pf ps \<and> jlt cf cs))))"
  using jlt_asym [of "fastSma ! (length fastSma - 1)" "slowSma ! (length slowSma - 1)"]
  by (auto simp add: detectCrossover_def Let_def jgt_def)

theorem detectCrossover_cases_witness:
  "2 \<le> length [Num 1, Num 3] \<and> 2 \<le> length [Num 2, Num 2] \<and>
   detectCrossover [Num 1, Num 3] [Num 2, Num 2] = Some ''bullish'' \<and>
   detectCrossover [Num 3, Num 1] [Num 2, Num 2] = Some ''bearish'' \<and>
   detectCrossover [Num 3] [Num 2, Num 2] = None"
  using detectCrossover_cases [of "[Num 1, Num 3]" "[Num 2, Num 2]"]
    detectCrossover_cases [of "[Num 3, Num 1]" "[Num 2, Num 2]"]
    detectCrossover_cases [of "[Num 3]" "[Num 2, Num 2]"]
  by (simp add: Let_def jgt_def jge_def)

lemma detectCrossover_lines_eq:
  "detectCrossover_lines line1 line2 =
     map_option (\<lambda>s. if s = ''bullish'' then ''above'' else ''below'')
       (detectCrossover line1 line2)"
  by (simp add: detectCrossover_lines_def detectCrossover_def Let_def)

subsection \<open>calculateRsi\<close>

lemma changes_loop_eq:
  "changes_loop prices i changes =
     changes @ map (\<lambda>j. jsub (prices ! j) (prices ! (j - 1))) [i..<length prices]"
proof (induction prices i changes rule: changes_loop.induct)
  case (1 prices i changes)
  show ?case
  proof (cases "i < length prices")
    case True
    then show ?thesis
      using "1.IH" by (subst changes_loop.simps) (simp add: upt_conv_Cons)
  next
    case False
    then show ?thesis
      by (subst changes_loop.simps) simp
  qed
qed

lemma rsi_loop_eq:
  "rsi_loop changes period i rsi =
     rsi @ map (rsi_window changes period) [i..int (length changes)]"
proof (induction changes period i rsi rule: rsi_loop.induct)
  case (1 changes period i rsi)
  show ?case
  proof (cases "i \<le> int (length changes)")
    case True
    then show ?thesis
      using "1.IH" by (subst rsi_loop.simps) (simp add: upto_rec1 [of i])
  next
    case False
    then show ?thesis
      by (subst rsi_loop.simps) simp
  qed
qed

lemma calculateRsi_eq:
  "calculateRsi prices period =
     map (rsi_window (map (\<lambda>j. jsub (prices ! j) (prices ! (j - 1))) [1..<length prices]) period)
       [period..int (length prices - 1)]"
  by (simp add: calculateRsi_def changes_loop_eq rsi_loop_eq)

lemma rsi_real_range:
  fixes g l :: real
  assumes "0 \<le> g" "0 < l"
  shows "1 + g / l \<noteq> 0" "0 \<le> 100 - 100 / (1 + g / l)" "100 - 100 / (1 + g / l) < 100"
proof -
  have rs: "0 \<le> g / l" using assms by simp
  then show "1 + g / l \<noteq> 0" by linarith
  have "100 / (1 + g / l) \<le> 100 / 1"
    using rs by (intro divide_left_mono) auto
  then show "0 \<le> 100 - 100 / (1 + g / l)" by simp
  have "0 < 100 / (1 + g / l)" using rs by (simp add: add_nonneg_pos)
  then show "100 - 100 / (1 + g / l) < 100" by simp
qed

lemma pos_sum_nonneg:
  "jle (Num 0) acc \<Longrightarrow> jle (Num 0) (foldl jadd acc (filter (\<lambda>c. jgt c (Num 0)) cs))"
proof (induction cs arbitrary: acc)
  case Nil
  then show ?case by simp
next
  case (Cons c cs)
  have "jlt (Num 0) c \<Longrightarrow> jle (Num 0) (jadd acc c)"
    using Cons.prems by (cases acc; cases c) auto
  then show ?case
    using Cons by (simp add: jgt_def)
qed

lemma neg_sum_nonpos:
  "jle acc (Num 0) \<Longrightarrow> jle (foldl jadd acc (filter (\<lambda>c. jlt c (Num 0)) cs)) (Num 0)"
proof (induction cs arbitrary: acc)
  case Nil
  then show ?case by simp
next
  case (Cons c cs)
  have "jlt c (Num 0) \<Longrightarrow> jle (jadd acc c) (Num 0)"
    using Cons.prems by (cases acc; cases c) auto
  then show ?case
    using Cons by simp
qed

lemma jle_zero_cases: "jle (Num 0) x \<Longrightarrow> x = PosInf \<or> (\<exists>r. x = Num r \<and> 0 \<le> r)"
  by (cases x) auto

lemma jle_cases_zero: "jle x (Num 0) \<Longrightarrow> x = NegInf \<or> (\<exists>r. x = Num r \<and> r \<le> 0)"
  by (cases x) auto

lemma rsi_window_range:
  assumes "1 \<le> p"
  shows "rsi_window changes p i = NaN \<or>
         (jle (Num 0) (rsi_window changes p i) \<and> jle (rsi_window changes p i) (Num 100))"
proof -
  define w where "w = slice changes (i - p) i"
  define G where "G = reduce_add (filter (\<lambda>c. jgt c (Num 0)) w)"
  define L where "L = reduce_add (filter (\<lambda>c. jlt c (Num 0)) w)"
  have p: "0 < real_of_int p" using assms by auto
  have v: "rsi_window changes p i =
      jsub (Num 100) (jdiv (Num 100) (jadd (Num 1)
        (jdiv (jdiv G (of_period p)) (num_or (jdiv (jabs L) (of_period p)) (Num 1)))))"
    by (simp add: rsi_window_def Let_def w_def G_def L_def)
  have G: "G = PosInf \<or> (\<exists>g. G = Num g \<and> 0 \<le> g)"
    unfolding G_def reduce_add_def by (rule jle_zero_cases, rule pos_sum_nonneg) simp
  have L: "L = NegInf \<or> (\<exists>l. L = Num l \<and> l \<le> 0)"
    unfolding L_def reduce_add_def by (rule jle_cases_zero, rule neg_sum_nonpos) simp
  from G L consider
      (inf_inf) "G = PosInf" "L = NegInf"
    | (inf_num) l where "G = PosInf" "L = Num l" "l \<le> 0"
    | (num_inf) g where "G = Num g" "0 \<le> g" "L = NegInf"
    | (num_num) g l where "G = Num g" "0 \<le> g" "L = Num l" "l \<le> 0"
    by blast
  then show ?thesis
  proof cases
    case inf_inf
    then show ?thesis using p by (simp add: v of_period_def num_or_def jsub_def)
  next
    case inf_num
    then show ?thesis using p by (simp add: v of_period_def num_or_def jsub_def)
  next
    case num_inf
    then show ?thesis using p by (simp add: v of_period_def num_or_def jsub_def)
  next
    case num_num
    define g' where "g' = g / real_of_int p"
    define l' where "l' = (if \<bar>l\<bar> / real_of_int p = 0 then 1 else \<bar>l\<bar> / real_of_int p)"
    have g0: "0 \<le> g'" unfolding g'_def using num_num(2) p by simp
    have l0: "0 < l'"
    proof (cases "\<bar>l\<bar> / real_of_int p = 0")
      case True
      then show ?thesis by (simp add: l'_def)
    next
      case False
      moreover have "0 \<le> \<bar>l\<bar> / real_of_int p" using p by simp
      ultimately show ?thesis by (simp add: l'_def less_le)
    qed
    have a: "jdiv G (of_period p) = Num g'"
      using num_num p by (simp add: of_period_def g'_def)
    have b: "num_or (jdiv (jabs L) (of_period p)) (Num 1) = Num l'"
      using num_num p by (simp add: of_period_def num_or_def l'_def)
    have "rsi_window changes p i = Num (100 - 100 / (1 + g' / l'))"
      unfolding v a b using rsi_real_range(1) [OF g0 l0] l0 by (simp add: jsub_def)
    then show ?thesis
      using rsi_real_range(2,3) [OF g0 l0] by simp
  qed
qed

text \<open>
  C9, as the code has it. For a period \<open>p \<ge> 1\<close>, every value that \<open>calculateRsi\<close>
  produces is \<open>NaN\<close> or lies in the closed interval from 0 to 100.
\<close>

theorem calculateRsi_range:
  "1 \<le> p \<Longrightarrow>
   \<forall>v \<in> set (calculateRsi prices p). v = NaN \<or> (jle (Num 0) v \<and> jle v (Num 100))"
  using rsi_window_range [of p] by (auto simp add: calculateRsi_eq)

theorem calculateRsi_range_witness:
  "(1::int) \<le> 2 \<and>
   calculateRsi [Num 1, Num 2, Num 1, Num 2] 2 = [Num 50, Num 50] \<and>
   jle (Num 0) (calculateRsi [Num 1, Num 2, Num 1, Num 2] 2 ! 1) \<and>
   jle (calculateRsi [Num 1, Num 2, Num 1, Num 2] 2 ! 1) (Num 100)"
proof -
  have p: "(1::int) \<le> 2" by simp
  have val: "calculateRsi [Num 1, Num 2, Num 1, Num 2] 2 = [Num 50, Num 50]"
    by code_simp
  then have "calculateRsi [Num 1, Num 2, Num 1, Num 2] 2 ! 1
               \<in> set (calculateRsi [Num 1, Num 2, Num 1, Num 2] 2)"
    by simp
  with calculateRsi_range [OF p, of "[Num 1, Num 2, Num 1, Num 2]"]
  have "calculateRsi [Num 1, Num 2, Num 1, Num 2] 2 ! 1 = NaN \<or>
        (jle (Num 0) (calculateRsi [Num 1, Num 2, Num 1, Num 2] 2 ! 1) \<and>
         jle (calculateRsi [Num 1, Num 2, Num 1, Num 2] 2 ! 1) (Num 100))"
    by blast
  moreover have "calculateRsi [Num 1, Num 2, Num 1, Num 2] 2 ! 1 \<noteq> NaN"
    by (simp add: val)
  ultimately show ?thesis using p val by blast
qed

text \<open>
  C9 as stated fails for a period below 1: with period \<open>-1\<close> over the prices 1, 2, 3, 4
  the first value is 200.
\<close>

theorem calculateRsi_range_counterexample:
  "calculateRsi [Num 1, Num 2, Num 3, Num 4] (- 1) = [Num 200, Num 0, Num 0, Num 0, Num 0] \<and>
   Num 200 \<noteq> NaN \<and> \<not> jle (Num 200) (Num 100)"
  by code_simp

lemma length_calculateRsi:
  "length (calculateRsi prices p) = nat (int (length prices - 1) - p + 1)"
  by (simp add: calculateRsi_eq)

lemma nth_calculateRsi:
  assumes "k < length (calculateRsi prices p)"
  shows "calculateRsi prices p ! k = rsi_window (changes_loop prices 1 []) p (p + int k)"
proof -
  have len: "length (calculateRsi prices p) = nat (int (length (changes_loop prices 1 [])) - p + 1)"
    by (simp add: calculateRsi_def rsi_loop_eq Let_def)
  with assms have "p + int k \<le> int (length (changes_loop prices 1 []))"
    by simp
  then show ?thesis
    using assms nth_upto [of p k "int (length (changes_loop prices 1 []))"]
    by (simp add: calculateRsi_def rsi_loop_eq Let_def)
qed

lemma rsi_window_all_gains:
  assumes "\<forall>c \<in> set (slice changes (i - p) i). jgt c (Num 0)"
  shows "rsi_window changes p i =
           jsub (Num 100) (jdiv (Num 100) (jadd (Num 1)
             (jdiv (jdiv (reduce_add (slice changes (i - p) i)) (of_period p)) (Num 1))))"
proof -
  define w where "w = slice changes (i - p) i"
  have "\<forall>c \<in> set w. jgt c (Num 0)" using assms by (simp add: w_def)
  then have pos: "filter (\<lambda>c. jgt c (Num 0)) w = w"
    and neg: "filter (\<lambda>c. jlt c (Num 0)) w = []"
    using jlt_asym by (auto simp add: filter_empty_conv jgt_def)
  have "num_or (jdiv (jabs (reduce_add [])) (of_period p)) (Num 1) = Num 1"
    by (simp add: reduce_add_def of_period_def num_or_def)
  then show ?thesis
    by (simp add: rsi_window_def Let_def w_def [symmetric] pos neg)
qed

text \<open>
  C1, as the code has it. When every change in a window is a gain, the sum of the losses
  is \<open>0\<close> and \<open>losses || 1\<close> replaces the average loss by \<open>1\<close>: the value for the
  window is \<open>100 - 100 / (1 + rs)\<close> with \<open>rs = avgGain / 1\<close>, where \<open>avgGain\<close> is the
  sum of the changes of the window divided by the period.
\<close>

theorem calculateRsi_all_gains:
  assumes "k < length (calculateRsi prices p)"
    and "\<forall>c \<in> set (slice (changes_loop prices 1 []) (int k) (int k + p)). jgt c (Num 0)"
  shows "calculateRsi prices p ! k =
           jsub (Num 100) (jdiv (Num 100) (jadd (Num 1)
             (jdiv (jdiv (reduce_add (slice (changes_loop prices 1 []) (int k) (int k + p)))
                         (of_period p))
                   (Num 1))))"
proof -
  from assms(2)
  have "\<forall>c \<in> set (slice (changes_loop prices 1 []) (p + int k - p) (p + int k)). jgt c (Num 0)"
    by (simp add: add.commute)
  from rsi_window_all_gains [OF this] show ?thesis
    by (simp add: nth_calculateRsi [OF assms(1)] add.commute)
qed

theorem calculateRsi_all_gains_witness:
  "0 < length (calculateRsi [Num 1, Num 2, Num 4] 2) \<and>
   slice (changes_loop [Num 1, Num 2, Num 4] 1 []) (int 0) (int 0 + 2) = [Num 1, Num 2] \<and>
   jgt (Num 1) (Num 0) \<and> jgt (Num 2) (Num 0) \<and>
   calculateRsi [Num 1, Num 2, Num 4] 2 ! 0 = Num 60"
proof -
  have h1: "0 < length (calculateRsi [Num 1, Num 2, Num 4] 2)"
    by code_simp
  have w: "slice (changes_loop [Num 1, Num 2, Num 4] 1 []) (int 0) (int 0 + 2) = [Num 1, Num 2]"
    by code_simp
  have g: "jgt (Num 1) (Num 0)" "jgt (Num 2) (Num 0)"
    by (simp_all add: jgt_def)
  have h2: "\<forall>c \<in> set (slice (changes_loop [Num 1, Num 2, Num 4] 1 []) (int 0) (int 0 + 2)).
              jgt c (Num 0)"
    unfolding w using g by simp
  from calculateRsi_all_gains [OF h1 h2]
  have "calculateRsi [Num 1, Num 2, Num 4] 2 ! 0 = Num 60"
    unfolding w by (simp add: reduce_add_def of_period_def jsub_def)
  with h1 w g show ?thesis by simp
qed

text \<open>
  C1 as stated fails: over the fifteen prices 1, 2, ..., 15 with period 14 every change
  is a gain of 1, and the value is 50, not 100.
\<close>

theorem calculateRsi_all_gains_counterexample:
  "calculateRsi (map Num [1, 2, 3, 4, 5, 6, 7, 8, 9, 10, 11, 12, 13, 14, 15]) 14 = [Num 50] \<and>
   calculateRsi (map Num [1, 2, 3, 4, 5, 6, 7, 8, 9, 10, 11, 12, 13, 14, 15]) 14 \<noteq> [Num 100]"
  by code_simp

subsection \<open>calculateEma\<close>

lemma length_ema_loop:
  "length ema = i \<Longrightarrow> length (ema_loop data k i ema) = max (length data) i"
proof (induction data k i ema rule: ema_loop.induct)
  case (1 data k i ema)
  show ?case
  proof (cases "i < length data")
    case True
    then show ?thesis
      using "1.IH" "1.prems" by (subst ema_loop.simps) (simp add: assign_def)
  next
    case False
    then show ?thesis
      using "1.prems" by (subst ema_loop.simps) simp
  qed
qed

lemma ema_loop_prefix:
  "length ema = i \<Longrightarrow> j < i \<Longrightarrow> ema_loop data k i ema ! j = ema ! j"
proof (induction data k i ema rule: ema_loop.induct)
  case (1 data k i ema)
  show ?case
  proof (cases "i < length data")
    case True
    then show ?thesis
      using "1.IH" "1.prems" by (subst ema_loop.simps) (simp add: assign_def nth_append)
  next
    case False
    then show ?thesis
      by (subst ema_loop.simps) simp
  qed
qed

lemma ema_loop_step:
  "length ema = i \<Longrightarrow> 1 \<le> i \<Longrightarrow> i \<le> j \<Longrightarrow> j < length data \<Longrightarrow>
   ema_loop data k i ema ! j =
     Some (jadd (jmul (data ! j) k)
                (jmul (to_num (ema_loop data k i ema ! (j - 1))) (jsub (Num 1) k)))"
proof (induction data k i ema rule: ema_loop.induct)
  case (1 data k i ema)
  define v where
    "v = Some (jadd (jmul (data ! i) k) (jmul (to_num (elem_opt ema (int i - 1))) (jsub (Num 1) k)))"
  from "1.prems" have lt: "i < length data" by simp
  have unfold: "ema_loop data k i ema = ema_loop data k (i + 1) (ema @ [v])"
    using lt "1.prems"(1) by (subst ema_loop.simps) (simp add: assign_def v_def)
  show ?case
  proof (cases "j = i")
    case True
    have "(ema @ [v]) ! i = v"
      using "1.prems" by (simp add: nth_append)
    then have a: "ema_loop data k (i + 1) (ema @ [v]) ! i = v"
      using "1.prems" ema_loop_prefix [of "ema @ [v]" "i + 1" i data k] by simp
    have b: "ema_loop data k (i + 1) (ema @ [v]) ! (i - 1) = ema ! (i - 1)"
      using "1.prems" ema_loop_prefix [of "ema @ [v]" "i + 1" "i - 1" data k]
      by (simp add: nth_append)
    have c: "elem_opt ema (int i - 1) = ema ! (i - 1)"
      using "1.prems" by (auto simp add: elem_opt_def elem_at_def nat_diff_distrib')
    show ?thesis
      unfolding True unfold a b by (simp add: v_def c)
  next
    case False
    then have "i + 1 \<le> j" using "1.prems" by simp
    then show ?thesis
      using "1.IH" [OF lt] "1.prems" by (simp add: unfold assign_def v_def)
  qed
qed

text \<open>
  C7. On the empty input \<open>ema[0] = data[0]\<close> stores \<open>undefined\<close>, so
  \<open>calculateEma\<close> returns an array of length 1 that holds \<open>undefined\<close>: the output is
  not as long as the input.
\<close>

theorem calculateEma_empty:
  "calculateEma [] period = [None] \<and> length (calculateEma [] period) \<noteq> length ([] :: jsnum list)"
  by (simp add: calculateEma_def assign_def elem_at_def ema_loop.simps)

text \<open>
  On every other input the output is as long as the input, \<open>ema[0] = data[0]\<close> and
  \<open>ema[i] = data[i] * k + ema[i-1] * (1 - k)\<close> with \<open>k = 2 / (period + 1)\<close>, also
  when the input is shorter than the period.
\<close>

lemma calculateEma_nonempty:
  assumes "data \<noteq> []"
  shows "length (calculateEma data period) = length data"
    and "calculateEma data period ! 0 = Some (data ! 0)"
    and "1 \<le> i \<Longrightarrow> i < length data \<Longrightarrow>
         calculateEma data period ! i =
           Some (jadd (jmul (data ! i) (jdiv (Num 2) (jadd (of_period period) (Num 1))))
                      (jmul (to_num (calculateEma data period ! (i - 1)))
                            (jsub (Num 1) (jdiv (Num 2) (jadd (of_period period) (Num 1))))))"
proof -
  let ?k = "jdiv (Num 2) (jadd (of_period period) (Num 1))"
  have seed: "assign [] 0 (elem_at data 0) = [Some (data ! 0)]"
    using assms by (simp add: assign_def elem_at_def)
  have eq: "calculateEma data period = ema_loop data ?k 1 [Some (data ! 0)]"
    by (simp add: calculateEma_def Let_def seed)
  show "length (calculateEma data period) = length data"
  proof -
    from assms have "1 \<le> length data" by (cases data) simp_all
    then show ?thesis
      using length_ema_loop [of "[Some (data ! 0)]" 1 data ?k] by (simp add: eq)
  qed
  show "calculateEma data period ! 0 = Some (data ! 0)"
    using ema_loop_prefix [of "[Some (data ! 0)]" 1 0 data ?k] by (simp add: eq)
  show "calculateEma data period ! i =
           Some (jadd (jmul (data ! i) ?k)
                      (jmul (to_num (calculateEma data period ! (i - 1))) (jsub (Num 1) ?k)))"
    if "1 \<le> i" "i < length data"
    using that ema_loop_step [of "[Some (data ! 0)]" 1 i data ?k] by (simp add: eq)
qed

subsection \<open>The bands of the Bollinger Bands strategy\<close>

text \<open>
  On finite prices and a multiplier that is not negative the bands are never inverted,
  and the strategy reports the breakout that \<open>breakout_of\<close> gives for the current
  price and the two bands, with an email exactly when there is one.
\<close>

lemma slice_from_map: "slice_from (map f xs) a = map f (slice_from xs a)"
  by (simp add: slice_from_def drop_map)

lemma bollinger_bands_finite:
  assumes "slice_from xs (- p) \<noteq> []"
  shows "\<exists>a s. calculateSma_last (map Num xs) p = Num a \<and>
               calculateStdDev (map Num xs) p = Num s \<and> 0 \<le> s"
proof -
  define ys where "ys = slice_from xs (- p)"
  define a where "a = sum_list ys / real (length ys)"
  define zs where "zs = map (\<lambda>y. (y - a) * (y - a)) ys"
  define v where "v = sum_list zs / real (length ys)"
  have len: "real (length ys) \<noteq> 0" "0 < real (length ys)"
    using assms by (simp_all add: ys_def)
  have sma: "calculateSma_last (map Num xs) p = Num a"
    using len by (simp add: calculateSma_last_def slice_from_map ys_def [symmetric]
        reduce_add_map_Num a_def)
  have sq: "map (\<lambda>v. jpow2 (jsub v (Num a))) (map Num ys) = map Num zs"
    by (simp add: jpow2_def jsub_def zs_def)
  have "0 \<le> sum_list zs"
    unfolding zs_def by (rule sum_list_nonneg) auto
  then have v0: "0 \<le> v"
    using len by (simp add: v_def)
  have "calculateStdDev (map Num xs) p = jsqrt (Num v)"
    unfolding calculateStdDev_def Let_def sma slice_from_map ys_def [symmetric] sq
    using len by (simp add: reduce_add_map_Num v_def)
  then have "calculateStdDev (map Num xs) p = Num (sqrt v)"
    using v0 by simp
  with sma v0 show ?thesis by auto
qed

lemma bollinger_bands_empty:
  assumes "slice_from xs (- p) = []"
  shows "calculateSma_last (map Num xs) p = NaN"
  using assms by (simp add: calculateSma_last_def slice_from_map reduce_add_def)

lemma bollinger_bands_not_inverted:
  assumes "jle (Num 0) m"
  shows "\<not> jlt (jadd (calculateSma_last (map Num xs) p) (jmul (calculateStdDev (map Num xs) p) m))
               (jsub (calculateSma_last (map Num xs) p) (jmul (calculateStdDev (map Num xs) p) m))"
proof (cases "slice_from xs (- p) = []")
  case True
  then show ?thesis
    by (simp add: bollinger_bands_empty)
next
  case False
  then obtain a s where as: "calculateSma_last (map Num xs) p = Num a"
      "calculateStdDev (map Num xs) p = Num s" "0 \<le> s"
    using bollinger_bands_finite by blast
  from assms consider (inf) "m = PosInf" | (num) k where "m = Num k" "0 \<le> k"
    by (cases m) auto
  then show ?thesis
  proof cases
    case inf
    then show ?thesis using as by (simp add: jsub_def)
  next
    case num
    show ?thesis using as num by (simp add: jsub_def not_less mult_nonneg_nonneg)
  qed
qed

lemma run_bollinger_output:
  assumes "getCandles args (str_or (getCallArgument args ''ticker'' id) ''BTCUSDT'') = Some cs"
    and "p = int_or (getCallArgument args ''period'' parseInt) 20"
    and "m = float_or (getCallArgument args ''stdDevMultiplier'' parseFloat) (Num 2)"
    and "prices = map (\<lambda>c. Num (close c)) cs"
    and "upper = jadd (calculateSma_last prices p) (jmul (calculateStdDev prices p) m)"
    and "lower = jsub (calculateSma_last prices p) (jmul (calculateStdDev prices p) m)"
    and "b = breakout_of (to_num (elem_at prices (int (length prices) - 1))) upper lower"
    and "\<not> int (length cs) < p"
  shows "\<exists>r. run_bollinger parseInt parseFloat args = Some r \<and>
           output_field r ''status'' = Some (JString ''ok'') \<and>
           output_field r ''upperBand'' = Some (JNumber upper) \<and>
           output_field r ''lowerBand'' = Some (JNumber lower) \<and>
           output_field r ''breakout'' = Some (case b of None \<Rightarrow> JNull | Some x \<Rightarrow> JString x) \<and>
           output_field r ''emailSent'' = Some (JBool (b \<noteq> None)) \<and>
           (scheduled r = [] \<longleftrightarrow> b = None)"
proof -
  have "b = None \<or> b = Some ''upper'' \<or> b = Some ''lower''"
    by (simp add: assms(7) breakout_of_def)
  moreover have "\<not> int (length prices) < p"
    using assms(8) by (simp add: assms(4))
  ultimately show ?thesis
    using assms(1)
    unfolding run_bollinger_def Let_def assms(2-7) [symmetric]
    by (auto simp add: output_field_def assms(4) [symmetric] assms(5) [symmetric] assms(6) [symmetric] assms(7) [symmetric])
qed

text \<open>
  C8, as the code has it. With enough candles the strategy reports \<open>'upper'\<close> iff the
  current price is strictly above the upper band, \<open>'lower'\<close> iff it is strictly below the
  lower band and not above the upper one (which is tested first), and no breakout
  otherwise; an email is scheduled exactly when there is a breakout. When the upper band
  is not below the lower one, \<open>'lower'\<close> is reported iff the price is strictly below the
  lower band, and a price equal to either band gives no breakout.
\<close>

theorem run_bollinger_breakout_strict:
  assumes "getCandles args (str_or (getCallArgument args ''ticker'' id) ''BTCUSDT'') = Some cs"
    and "p = int_or (getCallArgument args ''period'' parseInt) 20"
    and "m = float_or (getCallArgument args ''stdDevMultiplier'' parseFloat) (Num 2)"
    and "prices = map (\<lambda>c. Num (close c)) cs"
    and "upper = jadd (calculateSma_last prices p) (jmul (calculateStdDev prices p) m)"
    and "lower = jsub (calculateSma_last prices p) (jmul (calculateStdDev prices p) m)"
    and "price = to_num (elem_at prices (int (length prices) - 1))"
    and "\<not> int (length cs) < p"
  shows "\<exists>r. run_bollinger parseInt parseFloat args = Some r \<and>
           output_field r ''upperBand'' = Some (JNumber upper) \<and>
           output_field r ''lowerBand'' = Some (JNumber lower) \<and>
           (output_field r ''breakout'' = Some (JString ''upper'') \<longleftrightarrow> jgt price upper) \<and>
           (output_field r ''breakout'' = Some (JString ''lower'') \<longleftrightarrow>
              jlt price lower \<and> \<not> jgt price upper) \<and>
           (output_field r ''breakout'' = Some JNull \<longleftrightarrow>
              \<not> jgt price upper \<and> \<not> jlt price lower) \<and>
           (scheduled r = [] \<longleftrightarrow> \<not> jgt price upper \<and> \<not> jlt price lower) \<and>
           (\<not> jlt upper lower \<longrightarrow>
              (output_field r ''breakout'' = Some (JString ''lower'') \<longleftrightarrow> jlt price lower) \<and>
              (price = upper \<or> price = lower \<longrightarrow>
                 output_field r ''breakout'' = Some JNull \<and> scheduled r = []))"
proof -
  define b where "b = breakout_of price upper lower"
  have b7: "b = breakout_of (to_num (elem_at prices (int (length prices) - 1))) upper lower"
    by (simp add: b_def assms(7))
  from run_bollinger_output [OF assms(1-6) b7 assms(8)]
  obtain r where r: "run_bollinger parseInt parseFloat args = Some r"
      "output_field r ''upperBand'' = Some (JNumber upper)"
      "output_field r ''lowerBand'' = Some (JNumber lower)"
      "output_field r ''breakout'' = Some (case b of None \<Rightarrow> JNull | Some x \<Rightarrow> JString x)"
      "scheduled r = [] \<longleftrightarrow> b = None"
    by blast
  have up: "b = Some ''upper'' \<longleftrightarrow> jgt price upper"
    and lo: "b = Some ''lower'' \<longleftrightarrow> jlt price lower \<and> \<not> jgt price upper"
    and no: "b = None \<longleftrightarrow> \<not> jgt price upper \<and> \<not> jlt price lower"
    by (auto simp add: b_def breakout_of_def)
  have cases: "b = None \<or> b = Some ''upper'' \<or> b = Some ''lower''"
    by (simp add: b_def breakout_of_def)
  have f1: "output_field r ''breakout'' = Some (JString ''upper'') \<longleftrightarrow> jgt price upper"
    using cases up by (auto simp add: r(4))
  have f2: "output_field r ''breakout'' = Some (JString ''lower'') \<longleftrightarrow>
              jlt price lower \<and> \<not> jgt price upper"
    using cases lo by (auto simp add: r(4))
  have f3: "output_field r ''breakout'' = Some JNull \<longleftrightarrow>
              \<not> jgt price upper \<and> \<not> jlt price lower"
    using cases no by (auto simp add: r(4))
  have f4: "scheduled r = [] \<longleftrightarrow> \<not> jgt price upper \<and> \<not> jlt price lower"
    using r(5) no by simp
  have f5: "\<not> jlt upper lower \<longrightarrow>
              (output_field r ''breakout'' = Some (JString ''lower'') \<longleftrightarrow> jlt price lower) \<and>
              (price = upper \<or> price = lower \<longrightarrow>
                 output_field r ''breakout'' = Some JNull \<and> scheduled r = [])"
    using jlt_trans [of upper price lower] f2 f3 f4
    by (auto simp add: jgt_def jlt_irrefl)
  from r(1-3) f1 f2 f3 f4 f5 show ?thesis by blast
qed

lemma bollinger_example_bands:
  "calculateSma_last [Num 1, Num 3] 2 = Num 2"
  "calculateStdDev [Num 1, Num 3] 2 = Num 1"
proof -
  show sma: "calculateSma_last [Num 1, Num 3] 2 = Num 2"
    by (simp add: calculateSma_last_def slice_from_def rel_index_def reduce_add_def)
  show "calculateStdDev [Num 1, Num 3] 2 = Num 1"
    unfolding calculateStdDev_def Let_def sma
    by (simp add: slice_from_def rel_index_def reduce_add_def jpow2_def jsub_def)
qed

theorem run_bollinger_breakout_strict_witness:
  "\<exists>r. run_bollinger example_parseInt example_parseFloat
          (example_args [(''period'', ''2''), (''stdDevMultiplier'', ''1'')]
             [flat_candle 1 1, flat_candle 3 1]) = Some r \<and>
       output_field r ''upperBand'' = Some (JNumber (Num 3)) \<and>
       output_field r ''lowerBand'' = Some (JNumber (Num 1)) \<and>
       output_field r ''breakout'' = Some JNull \<and>
       scheduled r = []"
proof -
  let ?args = "example_args [(''period'', ''2''), (''stdDevMultiplier'', ''1'')]
                 [flat_candle 1 1, flat_candle 3 1]"
  have h1: "getCandles ?args (str_or (getCallArgument ?args ''ticker'' id) ''BTCUSDT'') =
              Some [flat_candle 1 1, flat_candle 3 1]"
    by (simp add: example_args_def getCandles_def getCallArgument_def str_or_def)
  have h2: "2 = int_or (getCallArgument ?args ''period'' example_parseInt) 20"
    by (simp add: example_args_def getCallArgument_def int_or_def example_parseInt_def)
  have h3: "Num 1 = float_or (getCallArgument ?args ''stdDevMultiplier'' example_parseFloat) (Num 2)"
    by (simp add: example_args_def getCallArgument_def float_or_def num_or_def
          example_parseFloat_def)
  have h4: "[Num 1, Num 3] = map (\<lambda>c. Num (close c)) [flat_candle 1 1, flat_candle 3 1]"
    by (simp add: flat_candle_def)
  have h5: "Num 3 = jadd (calculateSma_last [Num 1, Num 3] 2)
                         (jmul (calculateStdDev [Num 1, Num 3] 2) (Num 1))"
    by (simp add: bollinger_example_bands)
  have h6: "Num 1 = jsub (calculateSma_last [Num 1, Num 3] 2)
                         (jmul (calculateStdDev [Num 1, Num 3] 2) (Num 1))"
    by (simp add: bollinger_example_bands jsub_def)
  have h7: "Num 3 = to_num (elem_at [Num 1, Num 3] (int (length [Num 1, Num 3]) - 1))"
    by (simp add: elem_at_def to_num_def)
  have h8: "\<not> int (length [flat_candle 1 1, flat_candle 3 1]) < 2"
    by simp
  from run_bollinger_breakout_strict [OF h1 h2 h3 h4 h5 h6 h7 h8]
  show ?thesis by auto
qed

text \<open>
  C8 as stated fails when the bands are inverted: with the closes 1, 3, period 2 and a
  multiplier of \<open>-2\<close> the upper band is 0 and the lower band 4, and the price 3, which
  is below the lower band, is reported as \<open>'upper'\<close>.
\<close>

theorem run_bollinger_breakout_strict_counterexample:
  "run_bollinger example_parseInt example_parseFloat
     (example_args [(''period'', ''2''), (''stdDevMultiplier'', ''-2'')]
        [flat_candle 1 1, flat_candle 3 1]) =
   Some \<lparr>scheduled =
           [(''trader@example.com'',
             [Txt ''BTCUSDT'', Txt '' broke above upper Bollinger Band: Price '',
              Shown (Some (Num 3)), Txt '' > Upper Band '', Fixed (Num 0)])],
         output_obj = [(''status'', JString ''ok''), (''ticker'', JString ''BTCUSDT''),
                       (''currentPrice'', JNumber (Num 3)), (''sma'', JNumber (Num 2)),
                       (''upperBand'', JNumber (Num 0)), (''lowerBand'', JNumber (Num 4)),
                       (''breakout'', JString ''upper''), (''emailSent'', JBool True)]\<rparr> \<and>
   jlt (Num 3) (Num 4)"
  by (simp add: run_bollinger_def Let_def example_args_def example_parseInt_def
        example_parseFloat_def getCandles_def getCallArgument_def str_or_def int_or_def
        float_or_def num_or_def flat_candle_def bollinger_example_bands breakout_of_def
        elem_at_def to_num_def num_val_def jgt_def jsub_def of_period_def)

subsection \<open>Too few candles\<close>

lemma detectCrossover_short:
  "length fastSma < 2 \<or> length slowSma < 2 \<Longrightarrow> detectCrossover fastSma slowSma = None"
  by (simp add: detectCrossover_def)

lemma run_sma_alert_no_crossover:
  assumes "getCandles args (str_or (getCallArgument args ''ticker'' id) ''BTCUSDT'') = Some cs"
    and "detectCrossover
           (calculateSma (map (\<lambda>c. Num (close c)) cs)
              (int_or (getCallArgument args ''fastPeriod'' parseInt) 10))
           (calculateSma (map (\<lambda>c. Num (close c)) cs)
              (int_or (getCallArgument args ''slowPeriod'' parseInt) 20)) = None"
  shows "\<exists>r. run_sma_alert parseInt args = Some r \<and> scheduled r = [] \<and>
             output_field r ''status'' = Some (JString ''ok'') \<and>
             output_field r ''crossover'' = Some (JString ''none'') \<and>
             output_field r ''emailSent'' = Some (JBool False)"
  using assms by (simp add: run_sma_alert_def Let_def output_field_def str_or_def)

text \<open>
  C2, as the code has it. The Bollinger Bands strategy tests the number of candles
  first: with fewer candles than the period it returns status \<open>error\<close> with a message
  that names the period, and schedules no email. The Simple Moving Average Alert has no
  such test: with fewer candles than the fast or the slow period \<open>detectCrossover\<close>
  gets an empty series and gives \<open>null\<close>, so no crossover is reported and no email is
  scheduled.
\<close>

theorem insufficient_candles:
  "(getCandles args (str_or (getCallArgument args ''ticker'' id) ''BTCUSDT'') = Some cs \<and>
    int (length cs) < int_or (getCallArgument args ''period'' parseInt) 20 \<longrightarrow>
      run_bollinger parseInt parseFloat args =
        Some \<lparr>scheduled = [],
              output_obj =
                [(''status'', JString ''error''),
                 (''message'',
                  JTemplate [Txt ''Not enough data. Need at least '',
                             Shown (Some (of_period (int_or (getCallArgument args ''period'' parseInt) 20))),
                             Txt '' candles''])]\<rparr>) \<and>
   (getCandles args (str_or (getCallArgument args ''ticker'' id) ''BTCUSDT'') = Some cs \<and>
    (int (length cs) < int_or (getCallArgument args ''fastPeriod'' parseInt) 10 \<or>
     int (length cs) < int_or (getCallArgument args ''slowPeriod'' parseInt) 20) \<longrightarrow>
      (\<exists>r. run_sma_alert parseInt args = Some r \<and> scheduled r = [] \<and>
           output_field r ''crossover'' = Some (JString ''none'') \<and>
           output_field r ''emailSent'' = Some (JBool False)))"
proof (intro conjI impI)
  assume "getCandles args (str_or (getCallArgument args ''ticker'' id) ''BTCUSDT'') = Some cs \<and>
    int (length cs) < int_or (getCallArgument args ''period'' parseInt) 20"
  then show "run_bollinger parseInt parseFloat args =
        Some \<lparr>scheduled = [],
              output_obj =
                [(''status'', JString ''error''),
                 (''message'',
                  JTemplate [Txt ''Not enough data. Need at least '',
                             Shown (Some (of_period (int_or (getCallArgument args ''period'' parseInt) 20))),
                             Txt '' candles''])]\<rparr>"
    by (simp add: run_bollinger_def Let_def)
next
  assume a: "getCandles args (str_or (getCallArgument args ''ticker'' id) ''BTCUSDT'') = Some cs \<and>
    (int (length cs) < int_or (getCallArgument args ''fastPeriod'' parseInt) 10 \<or>
     int (length cs) < int_or (getCallArgument args ''slowPeriod'' parseInt) 20)"
  then have "length (calculateSma (map (\<lambda>c. Num (close c)) cs)
                (int_or (getCallArgument args ''fastPeriod'' parseInt) 10)) < 2 \<or>
             length (calculateSma (map (\<lambda>c. Num (close c)) cs)
                (int_or (getCallArgument args ''slowPeriod'' parseInt) 20)) < 2"
    by (auto simp add: length_calculateSma)
  then have "detectCrossover
           (calculateSma (map (\<lambda>c. Num (close c)) cs)
              (int_or (getCallArgument args ''fastPeriod'' parseInt) 10))
           (calculateSma (map (\<lambda>c. Num (close c)) cs)
              (int_or (getCallArgument args ''slowPeriod'' parseInt) 20)) = None"
    by (rule detectCrossover_short)
  with a show "\<exists>r. run_sma_alert parseInt args = Some r \<and> scheduled r = [] \<and>
           output_field r ''crossover'' = Some (JString ''none'') \<and>
           output_field r ''emailSent'' = Some (JBool False)"
    using run_sma_alert_no_crossover [of args cs parseInt] by blast
qed

theorem insufficient_candles_witness:
  "run_bollinger example_parseInt example_parseFloat
     (example_args [(''period'', ''20'')] (replicate 5 (flat_candle 1 1))) =
   Some \<lparr>scheduled = [],
         output_obj = [(''status'', JString ''error''),
                       (''message'',
                        JTemplate [Txt ''Not enough data. Need at least '', Shown (Some (Num 20)),
                                   Txt '' candles''])]\<rparr> \<and>
   (\<exists>r. run_sma_alert example_parseInt
          (example_args [(''period'', ''20'')] (replicate 5 (flat_candle 1 1))) = Some r \<and>
        scheduled r = [] \<and>
        output_field r ''crossover'' = Some (JString ''none'') \<and>
        output_field r ''emailSent'' = Some (JBool False))"
  using insufficient_candles [where args = "example_args [(''period'', ''20'')] (replicate 5 (flat_candle 1 1))"
      and cs = "replicate 5 (flat_candle 1 1)" and parseInt = example_parseInt
      and parseFloat = example_parseFloat]
  by (simp add: example_args_def example_parseInt_def getCandles_def getCallArgument_def
        str_or_def int_or_def of_period_def)

text \<open>
  C2 as stated fails: with 5 candles and a slow period of 20 the Simple Moving Average
  Alert returns status \<open>ok\<close>, not \<open>error\<close>, and no message.
\<close>

theorem insufficient_candles_counterexample:
  "run_sma_alert example_parseInt
     (example_args [(''slowPeriod'', ''20'')] (replicate 5 (flat_candle 1 1))) =
   Some \<lparr>scheduled = [],
         output_obj = [(''status'', JString ''ok''), (''ticker'', JString ''BTCUSDT''),
                       (''crossover'', JString ''none''), (''emailSent'', JBool False),
                       (''currentFastSma'', JUndefined), (''currentSlowSma'', JUndefined)]\<rparr>"
  by code_simp

subsection \<open>A zero average volume\<close>

lemma jle_PosInf: "m \<noteq> NaN \<Longrightarrow> jle m PosInf"
  by (cases m) auto

lemma float_or_not_NaN: "d \<noteq> NaN \<Longrightarrow> float_or v d \<noteq> NaN"
  by (cases v) (auto simp add: float_or_def num_or_def elim: falsy.elims)

lemma slice_trailing:
  assumes "1 \<le> p" "p + 1 \<le> int (length xs)"
  shows "slice xs (- p - 1) (- 1) = take (nat p) (drop (length xs - nat p - 1) xs)"
proof -
  have a: "rel_index (length xs) (- p - 1) = length xs - nat p - 1"
    using assms by (auto simp add: rel_index_def max_def; linarith)
  have b: "rel_index (length xs) (- 1) = length xs - 1"
    using assms by (auto simp add: rel_index_def max_def; linarith)
  have c: "length xs - 1 - (length xs - nat p - 1) = nat p"
    using assms by linarith
  show ?thesis
    unfolding slice_def Let_def a b c ..
qed

text \<open>
  C3, as the code has it. When there are enough candles and the volumes of the
  \<open>volumePeriod\<close> candles before the current one add up to 0, the Volume Spike Detector
  divides by the zero average: it returns status \<open>ok\<close>, and the \<open>volumeRatio\<close> of its
  output is \<open>Infinity\<close> for a positive current volume (a spike is then reported and an
  email scheduled) and \<open>NaN\<close> for a current volume of 0.
\<close>

theorem volume_spike_zero_average:
  assumes "getCandles args (str_or (getCallArgument args ''ticker'' id) ''BTCUSDT'') = Some cs"
    and "p = int_or (getCallArgument args ''volumePeriod'' parseInt) 20"
    and "1 \<le> p" and "p + 1 \<le> int (length cs)"
    and "sum_list (map volume (take (nat p) (drop (length cs - nat p - 1) cs))) = 0"
  shows "\<exists>r. run_volume_spike parseInt parseFloat args = Some r \<and>
           output_field r ''status'' = Some (JString ''ok'') \<and>
           output_field r ''avgVolume'' = Some (JNumber (Num 0)) \<and>
           output_field r ''volumeRatio'' =
             Some (JNumber (if 0 < volume (last cs) then PosInf
                            else if volume (last cs) < 0 then NegInf else NaN)) \<and>
           (0 < volume (last cs) \<longrightarrow>
              output_field r ''spikeDetected'' = Some (JBool True) \<and> length (scheduled r) = 1)"
proof -
  define volumes where "volumes = map (\<lambda>c. Num (volume c)) cs"
  define m where "m = float_or (getCallArgument args ''spikeMultiplier'' parseFloat) (Num 2)"
  have ne: "cs \<noteq> []" using assms(3,4) by auto
  have guard: "\<not> int (length cs) < p + 1" using assms(4) by simp
  have cur: "elem_at volumes (int (length volumes) - 1) = Some (Num (volume (last cs)))"
    using ne by (simp add: elem_at_def volumes_def last_conv_nth nat_diff_distrib')
  define ws where "ws = map volume (take (nat p) (drop (length cs - nat p - 1) cs))"
  have "slice volumes (- p - 1) (- 1) = map Num ws"
    using slice_trailing [OF assms(3), of volumes] assms(4)
    by (simp add: volumes_def ws_def take_map drop_map)
  moreover have "length ws = nat p"
    using assms(3,4) by (simp add: ws_def)
  moreover have "sum_list ws = 0"
    using assms(5) by (simp add: ws_def)
  ultimately have avg: "calculateAverage (slice volumes (- p - 1) (- 1)) = Num 0"
    using assms(3) by (simp add: calculateAverage_def reduce_add_map_Num)
  have m: "m \<noteq> NaN" unfolding m_def by (rule float_or_not_NaN) simp
  have spike: "0 < volume (last cs) \<Longrightarrow> jge PosInf m"
    using m by (simp add: jge_def jle_PosInf)
  note cur' = cur [unfolded volumes_def length_map]
  note avg' = avg [unfolded volumes_def]
  show ?thesis
    using assms(1) guard spike
    by (auto simp add: run_volume_spike_def Let_def assms(2) [symmetric] m_def [symmetric]
          cur' avg' to_num_def output_field_def)
qed

theorem volume_spike_zero_average_witness:
  "\<exists>r. run_volume_spike example_parseInt example_parseFloat
          (example_args [(''volumePeriod'', ''2'')]
             [flat_candle 1 0, flat_candle 1 0, flat_candle 1 0]) = Some r \<and>
       output_field r ''status'' = Some (JString ''ok'') \<and>
       output_field r ''avgVolume'' = Some (JNumber (Num 0)) \<and>
       output_field r ''volumeRatio'' = Some (JNumber NaN)"
  using volume_spike_zero_average [where args = "example_args [(''volumePeriod'', ''2'')]
             [flat_candle 1 0, flat_candle 1 0, flat_candle 1 0]"
      and cs = "[flat_candle 1 0, flat_candle 1 0, flat_candle 1 0]" and p = 2
      and parseInt = example_parseInt and parseFloat = example_parseFloat]
  by (simp add: example_args_def example_parseInt_def getCandles_def getCallArgument_def
        str_or_def int_or_def flat_candle_def)

text \<open>
  C3 as stated fails: with a period of 2 and the volumes 0, 0, 5 the result has status
  \<open>ok\<close> and its \<open>volumeRatio\<close> is \<open>Infinity\<close>.
\<close>

theorem volume_spike_zero_average_counterexample:
  "run_volume_spike example_parseInt example_parseFloat
     (example_args [(''volumePeriod'', ''2'')] [flat_candle 1 0, flat_candle 1 0, flat_candle 1 5]) =
   Some \<lparr>scheduled =
           [(''trader@example.com'',
             [Txt ''Volume spike detected for '', Txt ''BTCUSDT'', Txt '': Current volume '',
              Fixed (Num 5), Txt '' is '', Fixed PosInf, Txt ''x the '', Shown (Some (Num 2)),
              Txt ''-period average ('', Fixed (Num 0), Txt '')''])],
         output_obj = [(''status'', JString ''ok''), (''ticker'', JString ''BTCUSDT''),
                       (''currentVolume'', JNumber (Num 5)), (''avgVolume'', JNumber (Num 0)),
                       (''volumeRatio'', JNumber PosInf), (''spikeDetected'', JBool True),
                       (''emailSent'', JBool True)]\<rparr>"
  by code_simp

subsection \<open>A missing threshold\<close>

text \<open>
  C4, as the code has it. When the \<open>threshold\<close> argument is missing and there are at
  least two candles, every comparison with the threshold is false: the Price Threshold
  Alert schedules no email and returns status \<open>ok\<close> with \<open>triggered\<close> false and an
  undefined \<open>threshold\<close>.
\<close>

theorem missing_threshold:
  assumes "callArguments args ''threshold'' = None"
    and "getCandles args (str_or (getCallArgument args ''ticker'' id) ''BTCUSDT'') = Some cs"
    and "2 \<le> length cs"
  shows "\<exists>r. run_price_threshold parseFloat args = Some r \<and> scheduled r = [] \<and>
           output_field r ''status'' = Some (JString ''ok'') \<and>
           output_field r ''threshold'' = Some JUndefined \<and>
           output_field r ''triggered'' = Some (JBool False) \<and>
           output_field r ''emailSent'' = Some (JBool False)"
proof -
  have "getCallArgument args ''threshold'' parseFloat = None"
    using assms(1) by (simp add: getCallArgument_def)
  then show ?thesis
    using assms(2,3)
    by (simp add: run_price_threshold_def Let_def output_field_def to_num_def num_val_def jgt_def jge_def)
qed

theorem missing_threshold_witness:
  "\<exists>r. run_price_threshold example_parseFloat
          (example_args [] [flat_candle 1 1, flat_candle 2 1]) = Some r \<and>
       scheduled r = [] \<and>
       output_field r ''status'' = Some (JString ''ok'') \<and>
       output_field r ''threshold'' = Some JUndefined \<and>
       output_field r ''triggered'' = Some (JBool False) \<and>
       output_field r ''emailSent'' = Some (JBool False)"
  using missing_threshold [where args = "example_args [] [flat_candle 1 1, flat_candle 2 1]"
      and cs = "[flat_candle 1 1, flat_candle 2 1]" and parseFloat = example_parseFloat]
  by (simp add: example_args_def getCandles_def getCallArgument_def str_or_def)

text \<open>
  C4 as stated fails: without a threshold and with two candles the result has status
  \<open>ok\<close>.
\<close>

theorem missing_threshold_counterexample:
  "run_price_threshold example_parseFloat (example_args [] [flat_candle 1 1, flat_candle 2 1]) =
   Some \<lparr>scheduled = [],
         output_obj = [(''status'', JString ''ok''), (''ticker'', JString ''BTCUSDT''),
                       (''currentPrice'', JNumber (Num 2)), (''threshold'', JUndefined),
                       (''direction'', JString ''above''), (''triggered'', JBool False),
                       (''emailSent'', JBool False)]\<rparr>"
  by code_simp

subsection \<open>Defaults\<close>

lemma or_default_falsy:
  "str_or (Some []) d = str_or None d"
  "int_or (Some None) n = int_or None n"
  "int_or (Some (Some 0)) n = int_or None n"
  "falsy x \<Longrightarrow> float_or (Some x) y = float_or None y"
  by (simp_all add: str_or_def int_or_def float_or_def num_or_def)

text \<open>
  C10. In each strategy an argument read with \<open>||\<close> that is supplied with a falsy value
  (the empty string for a string argument, a string that parses to \<open>0\<close> or \<open>NaN\<close> for
  a numeric one) gives the same result as the invocation without that argument.
\<close>

theorem falsy_argument_is_default:
  "(callArguments args name = Some s \<and>
    (name \<in> {''ticker'', ''email''} \<and> s = [] \<or>
     name \<in> {''fastPeriod'', ''slowPeriod''} \<and> (parseInt s = None \<or> parseInt s = Some 0)) \<longrightarrow>
      run_sma_alert parseInt args =
      run_sma_alert parseInt (args\<lparr>callArguments := (callArguments args)(name := None)\<rparr>)) \<and>
   (callArguments args name = Some s \<and>
    (name \<in> {''ticker'', ''email''} \<and> s = [] \<or>
     name = ''volumePeriod'' \<and> (parseInt s = None \<or> parseInt s = Some 0) \<or>
     name = ''spikeMultiplier'' \<and> falsy (parseFloat s)) \<longrightarrow>
      run_volume_spike parseInt parseFloat args =
      run_volume_spike parseInt parseFloat
        (args\<lparr>callArguments := (callArguments args)(name := None)\<rparr>)) \<and>
   (callArguments args name = Some s \<and>
    (name \<in> {''ticker'', ''email''} \<and> s = [] \<or>
     name = ''period'' \<and> (parseInt s = None \<or> parseInt s = Some 0) \<or>
     name = ''stdDevMultiplier'' \<and> falsy (parseFloat s)) \<longrightarrow>
      run_bollinger parseInt parseFloat args =
      run_bollinger parseInt parseFloat
        (args\<lparr>callArguments := (callArguments args)(name := None)\<rparr>)) \<and>
   (callArguments args name = Some s \<and> name \<in> {''ticker'', ''direction'', ''email''} \<and> s = [] \<longrightarrow>
      run_price_threshold parseFloat args =
      run_price_threshold parseFloat
        (args\<lparr>callArguments := (callArguments args)(name := None)\<rparr>))"
proof (intro conjI impI)
  assume "callArguments args name = Some s \<and>
    (name \<in> {''ticker'', ''email''} \<and> s = [] \<or>
     name \<in> {''fastPeriod'', ''slowPeriod''} \<and> (parseInt s = None \<or> parseInt s = Some 0))"
  then show "run_sma_alert parseInt args =
      run_sma_alert parseInt (args\<lparr>callArguments := (callArguments args)(name := None)\<rparr>)"
    unfolding run_sma_alert_def getCallArgument_def getCandles_def
    by (elim conjE disjE insertE emptyE) (simp_all add: or_default_falsy cong: option.case_cong)
next
  assume "callArguments args name = Some s \<and>
    (name \<in> {''ticker'', ''email''} \<and> s = [] \<or>
     name = ''volumePeriod'' \<and> (parseInt s = None \<or> parseInt s = Some 0) \<or>
     name = ''spikeMultiplier'' \<and> falsy (parseFloat s))"
  then show "run_volume_spike parseInt parseFloat args =
      run_volume_spike parseInt parseFloat
        (args\<lparr>callArguments := (callArguments args)(name := None)\<rparr>)"
    unfolding run_volume_spike_def getCallArgument_def getCandles_def
    by (elim conjE disjE insertE emptyE) (simp_all add: or_default_falsy cong: option.case_cong)
next
  assume "callArguments args name = Some s \<and>
    (name \<in> {''ticker'', ''email''} \<and> s = [] \<or>
     name = ''period'' \<and> (parseInt s = None \<or> parseInt s = Some 0) \<or>
     name = ''stdDevMultiplier'' \<and> falsy (parseFloat s))"
  then show "run_bollinger parseInt parseFloat args =
      run_bollinger parseInt parseFloat
        (args\<lparr>callArguments := (callArguments args)(name := None)\<rparr>)"
    unfolding run_bollinger_def getCallArgument_def getCandles_def
    by (elim conjE disjE insertE emptyE) (simp_all add: or_default_falsy cong: option.case_cong)
next
  assume "callArguments args name = Some s \<and> name \<in> {''ticker'', ''direction'', ''email''} \<and> s = []"
  then show "run_price_threshold parseFloat args =
      run_price_threshold parseFloat
        (args\<lparr>callArguments := (callArguments args)(name := None)\<rparr>)"
    unfolding run_price_threshold_def getCallArgument_def getCandles_def
    by (elim conjE disjE insertE emptyE) (simp_all add: or_default_falsy cong: option.case_cong if_cong)
qed

theorem falsy_argument_is_default_witness:
  "run_sma_alert example_parseInt
     (example_args [(''fastPeriod'', ''0'')] [flat_candle 1 1, flat_candle 2 1]) =
   run_sma_alert example_parseInt (example_args [] [flat_candle 1 1, flat_candle 2 1]) \<and>
   run_volume_spike example_parseInt example_parseFloat
     (example_args [(''spikeMultiplier'', ''0'')] [flat_candle 1 1, flat_candle 2 1]) =
   run_volume_spike example_parseInt example_parseFloat
     (example_args [] [flat_candle 1 1, flat_candle 2 1])"
proof -
  have a: "(example_args [(''fastPeriod'', ''0'')] [flat_candle 1 1, flat_candle 2 1])
             \<lparr>callArguments :=
                (callArguments (example_args [(''fastPeriod'', ''0'')] [flat_candle 1 1, flat_candle 2 1]))
                  (''fastPeriod'' := None)\<rparr> =
           example_args [] [flat_candle 1 1, flat_candle 2 1]"
    by (simp add: example_args_def)
  have b: "(example_args [(''spikeMultiplier'', ''0'')] [flat_candle 1 1, flat_candle 2 1])
             \<lparr>callArguments :=
                (callArguments (example_args [(''spikeMultiplier'', ''0'')] [flat_candle 1 1, flat_candle 2 1]))
                  (''spikeMultiplier'' := None)\<rparr> =
           example_args [] [flat_candle 1 1, flat_candle 2 1]"
    by (simp add: example_args_def)
  have "run_sma_alert example_parseInt
     (example_args [(''fastPeriod'', ''0'')] [flat_candle 1 1, flat_candle 2 1]) =
   run_sma_alert example_parseInt (example_args [] [flat_candle 1 1, flat_candle 2 1])"
    using falsy_argument_is_default [where args = "example_args [(''fastPeriod'', ''0'')] [flat_candle 1 1, flat_candle 2 1]"
        and name = "''fastPeriod''" and s = "''0''" and parseInt = example_parseInt]
    unfolding a by (simp add: example_args_def example_parseInt_def)
  moreover have "run_volume_spike example_parseInt example_parseFloat
     (example_args [(''spikeMultiplier'', ''0'')] [flat_candle 1 1, flat_candle 2 1]) =
   run_volume_spike example_parseInt example_parseFloat
     (example_args [] [flat_candle 1 1, flat_candle 2 1])"
    using falsy_argument_is_default [where args = "example_args [(''spikeMultiplier'', ''0'')] [flat_candle 1 1, flat_candle 2 1]"
        and name = "''spikeMultiplier''" and s = "''0''" and parseInt = example_parseInt
        and parseFloat = example_parseFloat]
    unfolding b by (simp add: example_args_def example_parseFloat_def)
  ultimately show ?thesis by simp
qed

end
